theory Spec2Isabelle
  imports Main "HOL-Library.Word"
begin

unbundle bit_operations_syntax

section \<open>The driver's data\<close>

text \<open>
  A shallow embedding of \<^verbatim>\<open>displaylcd.c\<close>, a Linux character-device driver for a 16x2
  HD44780 display on six GPIO lines. The C type \<^verbatim>\<open>unsigned char\<close> is \<open>8 word\<close>.
  Every call of \<^verbatim>\<open>gpio_set_value\<close>, \<^verbatim>\<open>ndelay\<close>, \<^verbatim>\<open>udelay\<close> and \<^verbatim>\<open>mdelay\<close> is recorded, in
  program order, in the \<open>trace\<close> of the state.
\<close>

type_synonym byte = "8 word"

datatype event = Gpio nat bool | Ndelay nat | Udelay nat | Mdelay nat

text \<open>
  The globals of the file: the output level of every GPIO line, \<^verbatim>\<open>Device_Open\<close>,
  \<^verbatim>\<open>minor\<close> and \<^verbatim>\<open>message[32]\<close>. Four fields are bookkeeping of the model: \<open>trace\<close> (the
  calls into the GPIO and delay interfaces), \<open>klog\<close> (the lengths reported with
  \<^verbatim>\<open>printk\<close> by \<^verbatim>\<open>device_write\<close>), \<open>stores\<close> (the index of every store into \<^verbatim>\<open>message\<close>)
  and \<open>fault\<close> (set when an array access falls outside its array, which C leaves
  undefined).
\<close>

record driver =
  levels :: "nat \<Rightarrow> bool"
  trace :: "event list"
  Device_Open :: bool
  minor :: int
  message :: "byte list"
  stores :: "nat list"
  klog :: "nat list"
  fault :: bool

text \<open>The pin numbers (\<^verbatim>\<open>#define RS_pin 10\<close> ...) and the \<^verbatim>\<open>pins[]\<close> array with its indices.\<close>

definition RS_pin :: nat where "RS_pin = 10"
definition EN_pin :: nat where "EN_pin = 9"
definition DB4_pin :: nat where "DB4_pin = 6"
definition DB5_pin :: nat where "DB5_pin = 13"
definition DB6_pin :: nat where "DB6_pin = 19"
definition DB7_pin :: nat where "DB7_pin = 26"

definition pins :: "nat list" where
  "pins = [RS_pin, EN_pin, DB4_pin, DB5_pin, DB6_pin, DB7_pin]"

definition RS :: nat where "RS = 0"
definition EN :: nat where "EN = 1"
definition DB4 :: nat where "DB4 = 2"
definition DB5 :: nat where "DB5 = 3"
definition DB6 :: nat where "DB6 = 4"
definition DB7 :: nat where "DB7 = 5"

section \<open>The kernel interfaces the driver calls\<close>

definition gpio_set_value :: "nat \<Rightarrow> bool \<Rightarrow> driver \<Rightarrow> driver" where
  "gpio_set_value g v s = s\<lparr>levels := (levels s)(g := v), trace := trace s @ [Gpio g v]\<rparr>"

definition ndelay :: "nat \<Rightarrow> driver \<Rightarrow> driver" where
  "ndelay n s = s\<lparr>trace := trace s @ [Ndelay n]\<rparr>"

definition udelay :: "nat \<Rightarrow> driver \<Rightarrow> driver" where
  "udelay n s = s\<lparr>trace := trace s @ [Udelay n]\<rparr>"

definition mdelay :: "nat \<Rightarrow> driver \<Rightarrow> driver" where
  "mdelay n s = s\<lparr>trace := trace s @ [Mdelay n]\<rparr>"

definition printk_too_long :: "nat \<Rightarrow> driver \<Rightarrow> driver" where
  "printk_too_long len s = s\<lparr>klog := klog s @ [len]\<rparr>"

section \<open>The signal transfer functions\<close>

text \<open>
  \<^verbatim>\<open>lcd_nibble\<close>: EN high, 150 ns, the four data lines from bits 0..3 of the argument
  (\<^verbatim>\<open>nibble & 0x01 ? gpio_set_value(.., 1) : gpio_set_value(.., 0)\<close>), 80 ns, EN low, 10 ns.
\<close>

definition lcd_nibble :: "byte \<Rightarrow> driver \<Rightarrow> driver" where
  "lcd_nibble nibble s0 =
    (let s1 = gpio_set_value (pins ! EN) True s0;
         s2 = ndelay 150 s1;
         s3 = (if nibble AND 0x01 \<noteq> 0 then gpio_set_value (pins ! DB4) True s2
               else gpio_set_value (pins ! DB4) False s2);
         s4 = (if nibble AND 0x02 \<noteq> 0 then gpio_set_value (pins ! DB5) True s3
               else gpio_set_value (pins ! DB5) False s3);
         s5 = (if nibble AND 0x04 \<noteq> 0 then gpio_set_value (pins ! DB6) True s4
               else gpio_set_value (pins ! DB6) False s4);
         s6 = (if nibble AND 0x08 \<noteq> 0 then gpio_set_value (pins ! DB7) True s5
               else gpio_set_value (pins ! DB7) False s5);
         s7 = ndelay 80 s6;
         s8 = gpio_set_value (pins ! EN) False s7
     in ndelay 10 s8)"

text \<open>
  \<^verbatim>\<open>lcd_byte\<close>: \<^verbatim>\<open>lcd_nibble(byte >> 4)\<close>, \<^verbatim>\<open>lcd_nibble(byte)\<close>, 40 us, RS high.
\<close>

definition lcd_byte :: "byte \<Rightarrow> driver \<Rightarrow> driver" where
  "lcd_byte b s0 =
    (let s1 = lcd_nibble (drop_bit 4 b) s0;
         s2 = lcd_nibble b s1;
         s3 = udelay 40 s2
     in gpio_set_value (pins ! RS) True s3)"

text \<open>\<^verbatim>\<open>lcd_cls\<close>: RS low, the byte 0x01, 2 ms.\<close>

definition lcd_cls :: "driver \<Rightarrow> driver" where
  "lcd_cls s0 =
    (let s1 = gpio_set_value (pins ! RS) False s0;
         s2 = lcd_byte 0x01 s1
     in mdelay 2 s2)"

text \<open>
  \<^verbatim>\<open>lcd_pos\<close>: \<^verbatim>\<open>pos--\<close> (an \<^verbatim>\<open>unsigned char\<close>, so 0 becomes 255), add 48 when the result
  is above 15 (again modulo 256), set bit 7, RS low, send the byte. The function has
  no test of the range of its argument.
\<close>

definition lcd_pos :: "byte \<Rightarrow> driver \<Rightarrow> driver" where
  "lcd_pos pos0 s0 =
    (let pos1 = pos0 - 1;
         pos2 = (if pos1 > 15 then pos1 + 48 else pos1);
         pos3 = pos2 OR 0x80;
         s1 = gpio_set_value (pins ! RS) False s0
     in lcd_byte pos3 s1)"

text \<open>
  \<^verbatim>\<open>lcd_print\<close>: the loop \<^verbatim>\<open>for (x = 0; x < 16; x++)\<close>, returning at the first zero byte.
  The argument is the memory the pointer refers to; a read at or beyond its end is
  outside the object, and the model stops there with \<open>fault\<close> set.
\<close>

function lcd_print_from :: "nat \<Rightarrow> byte list \<Rightarrow> driver \<Rightarrow> driver" where
  "lcd_print_from x buffer s =
    (if x < 16 then
       (if x < length buffer then
          (if buffer ! x = 0 then s
           else lcd_print_from (Suc x) buffer (lcd_byte (buffer ! x) s))
        else s\<lparr>fault := True\<rparr>)
     else s)"
  by pat_completeness auto
termination
  by (relation "measure (\<lambda>(x, buffer, s). 16 - x)") auto

declare lcd_print_from.simps [simp del]

definition lcd_print :: "byte list \<Rightarrow> driver \<Rightarrow> driver" where
  "lcd_print buffer s = lcd_print_from 0 buffer s"

section \<open>The file operations\<close>

text \<open>
  \<^verbatim>\<open>device_open\<close> refuses a second open with \<^verbatim>\<open>-EBUSY\<close> (-16) and otherwise stores the
  minor number of the device file; \<^verbatim>\<open>device_release\<close> clears the flag; \<^verbatim>\<open>device_read\<close>
  returns 0. The module use counter belongs to the kernel and is not modelled.
\<close>

definition device_open :: "int \<Rightarrow> driver \<Rightarrow> driver \<times> int" where
  "device_open m s =
    (if Device_Open s then (s, - 16)
     else (s\<lparr>Device_Open := True, minor := m\<rparr>, 0))"

definition device_release :: "driver \<Rightarrow> driver \<times> int" where
  "device_release s = (s\<lparr>Device_Open := False\<rparr>, 0)"

definition device_read :: "driver \<Rightarrow> driver \<times> int" where
  "device_read s = (s, 0)"

text \<open>
  A store \<^verbatim>\<open>message[i] = v\<close>. The array has as many elements as the list \<open>message s\<close>
  (32 in every state the driver starts from); an index outside it sets \<open>fault\<close>.
\<close>

definition store_message :: "nat \<Rightarrow> byte \<Rightarrow> driver \<Rightarrow> driver" where
  "store_message i v s =
    (if i < length (message s)
     then s\<lparr>message := (message s)[i := v], stores := stores s @ [i]\<rparr>
     else s\<lparr>stores := stores s @ [i], fault := True\<rparr>)"

text \<open>\<^verbatim>\<open>memcpy(message, buffer, len)\<close>, one byte after the other from index \<open>i\<close> on.\<close>

fun memcpy_message :: "nat \<Rightarrow> byte list \<Rightarrow> driver \<Rightarrow> driver" where
  "memcpy_message i [] s = s"
| "memcpy_message i (b # bs) s = memcpy_message (Suc i) bs (store_message i b s)"

text \<open>
  The test \<^verbatim>\<open>(c >= '0') && (c <= '9')\<close>. The buffer holds \<^verbatim>\<open>char\<close>; whether that type is
  signed or not, the test holds exactly for the bytes 0x30..0x39.
\<close>

definition is_digit :: "byte \<Rightarrow> bool" where
  "is_digit c = (c \<ge> 0x30 \<and> c \<le> 0x39)"

text \<open>
  \<^verbatim>\<open>device_write\<close>. The argument is the caller's buffer, \<^verbatim>\<open>len\<close> is its length, and the
  result is the new state with the returned count. The branches are those of the
  source, in its order: the length test, minor 1, minor 2 (no byte, one byte, two or
  more), minor 0, and any other minor.
\<close>

definition device_write :: "byte list \<Rightarrow> driver \<Rightarrow> driver \<times> int" where
  "device_write buffer s =
    (let len = length buffer in
     if len > 30 then (printk_too_long len s, int len)
     else if minor s = 1 then (lcd_cls s, int len)
     else if minor s = 2 then
       (if len = 0 then (s, int len)
        else if len = 1 then
          (if is_digit (buffer ! 0)
           then (lcd_pos (buffer ! 0 - 0x30) s, int len)
           else (s, int len))
        else
          (let pos0 = (0 :: byte);
               pos1 = (if is_digit (buffer ! 0) then buffer ! 0 - 0x30 else pos0);
               pos2 = (if is_digit (buffer ! 1) then pos1 * 10 + buffer ! 1 - 0x30 else pos1)
           in if pos2 \<noteq> 0 \<and> pos2 \<le> 32 then (lcd_pos pos2 s, int len)
              else (s, int len)))
     else if minor s = 0 then
       (let s1 = memcpy_message 0 buffer s;
            s2 = store_message len 0 s1
        in (lcd_print (message s2) s2, int len))
     else (s, int len))"

section \<open>Module initialisation\<close>

text \<open>
  \<^verbatim>\<open>gpio_request_array\<close> configures the six lines of \<^verbatim>\<open>pins[]\<close> as outputs at low level
  (\<^verbatim>\<open>GPIOF_OUT_INIT_LOW\<close>). \<^verbatim>\<open>inicializa\<close> takes its result \<open>ret\<close> and the outcome \<open>reg\<close> of
  the character-device registration that follows the display set-up (0, or the
  negative error code the function returns); \<open>line1\<close> and \<open>line2\<close> are the module
  parameters.
\<close>

definition gpio_request_array :: "driver \<Rightarrow> driver" where
  "gpio_request_array s = s\<lparr>levels := (\<lambda>g. if g \<in> set pins then False else levels s g)\<rparr>"

definition inicializa :: "int \<Rightarrow> int \<Rightarrow> byte list \<Rightarrow> byte list \<Rightarrow> driver \<Rightarrow> driver \<times> int" where
  "inicializa ret reg line1 line2 s =
    (if ret \<noteq> 0 then (s, ret)
     else
      (let s = gpio_request_array s;
           s = mdelay 15 s;
           s = lcd_nibble 0x03 s;
           s = mdelay 5 s;
           s = lcd_nibble 0x03 s;
           s = udelay 100 s;
           s = lcd_nibble 0x03 s;
           s = udelay 40 s;
           s = lcd_nibble 0x02 s;
           s = udelay 40 s;
           s = lcd_nibble 0x02 s;
           s = lcd_nibble 0x08 s;
           s = udelay 40 s;
           s = lcd_nibble 0x00 s;
           s = lcd_nibble 0x0C s;
           s = udelay 40 s;
           s = lcd_nibble 0x00 s;
           s = lcd_nibble 0x06 s;
           s = udelay 40 s;
           s = lcd_cls s;
           s = lcd_print line1 s;
           s = lcd_pos 17 s;
           s = lcd_print line2 s
       in (s, reg)))"

text \<open>
  The state before the module is loaded: the statics of the file are zero, nothing has
  been recorded.
\<close>

definition boot :: driver where
  "boot = \<lparr>levels = (\<lambda>g. False), trace = [], Device_Open = False, minor = 0,
           message = replicate 32 0, stores = [], klog = [], fault = False\<rparr>"

text \<open>
  The calls user space can make once the module is loaded, and the state after a
  sequence of them.
\<close>

datatype call = Open int | Release | Read | Write "byte list"

fun do_call :: "driver \<Rightarrow> call \<Rightarrow> driver" where
  "do_call s (Open m) = fst (device_open m s)"
| "do_call s Release = fst (device_release s)"
| "do_call s Read = fst (device_read s)"
| "do_call s (Write buffer) = fst (device_write buffer s)"

definition run :: "call list \<Rightarrow> driver \<Rightarrow> driver" where
  "run cs s = foldl do_call s cs"

section \<open>What the display controller sees\<close>

text \<open>
  The HD44780 latches RS and the four data lines on the falling edge of EN. \<open>latched\<close>
  replays a list of events from given line levels and returns, for each falling edge
  of EN, the level of RS and the nibble on DB7..DB4 at that moment. \<open>transfers\<close> pairs
  the nibbles, high one first, as the controller does in 4-bit mode: two nibbles
  latched with RS low are a command byte, with RS high a character byte.
\<close>

definition data_nibble :: "(nat \<Rightarrow> bool) \<Rightarrow> byte" where
  "data_nibble lv =
     of_bool (lv DB4_pin) OR push_bit 1 (of_bool (lv DB5_pin))
     OR push_bit 2 (of_bool (lv DB6_pin)) OR push_bit 3 (of_bool (lv DB7_pin))"

fun latched :: "(nat \<Rightarrow> bool) \<Rightarrow> event list \<Rightarrow> (bool \<times> byte) list" where
  "latched lv [] = []"
| "latched lv (Gpio g v # es) =
     (if g = EN_pin \<and> lv EN_pin \<and> \<not> v then [(lv RS_pin, data_nibble lv)] else [])
     @ latched (lv(g := v)) es"
| "latched lv (Ndelay n # es) = latched lv es"
| "latched lv (Udelay n # es) = latched lv es"
| "latched lv (Mdelay n # es) = latched lv es"

datatype xfer = Command byte | Character byte | Stray

fun transfers :: "(bool \<times> byte) list \<Rightarrow> xfer list" where
  "transfers [] = []"
| "transfers [n] = [Stray]"
| "transfers ((r1, h) # (r2, l) # ns) =
     (if r1 = r2 then (if r1 then Character (push_bit 4 h OR l) else Command (push_bit 4 h OR l))
      else Stray) # transfers ns"

text \<open>The events a function adds to the trace when it runs from state \<open>s\<close>.\<close>

definition emitted :: "(driver \<Rightarrow> driver) \<Rightarrow> driver \<Rightarrow> event list" where
  "emitted f s = drop (length (trace s)) (trace (f s))"

definition seen :: "(driver \<Rightarrow> driver) \<Rightarrow> driver \<Rightarrow> xfer list" where
  "seen f s = transfers (latched (levels s) (emitted f s))"

text \<open>
  The events of one call of \<^verbatim>\<open>lcd_nibble\<close> and of one call of \<^verbatim>\<open>lcd_byte\<close>, with the pin
  numbers written out.
\<close>

definition nibble_events :: "byte \<Rightarrow> event list" where
  "nibble_events n =
     [Gpio 9 True, Ndelay 150, Gpio 6 (bit n 0), Gpio 13 (bit n 1), Gpio 19 (bit n 2),
      Gpio 26 (bit n 3), Ndelay 80, Gpio 9 False, Ndelay 10]"

definition byte_events :: "byte \<Rightarrow> event list" where
  "byte_events b = nibble_events (drop_bit 4 b) @ nibble_events b @ [Udelay 40, Gpio 10 True]"

text \<open>
  The command byte \<^verbatim>\<open>lcd_pos\<close> computes from its argument (the three assignments to
  \<^verbatim>\<open>pos\<close>), as a function of its own.
\<close>

definition pos_command :: "byte \<Rightarrow> byte" where
  "pos_command p = (if p - 1 > 15 then p - 1 + 48 else p - 1) OR 0x80"

text \<open>
  The value \<^verbatim>\<open>device_write\<close> computes from the first two bytes on minor 2 (the
  assignments to \<^verbatim>\<open>pos\<close> in its last branch), as a function of its own.
\<close>

definition two_byte_pos :: "byte \<Rightarrow> byte \<Rightarrow> byte" where
  "two_byte_pos c0 c1 =
     (let pos0 = (0 :: byte);
          pos1 = (if is_digit c0 then c0 - 0x30 else pos0);
          pos2 = (if is_digit c1 then pos1 * 10 + c1 - 0x30 else pos1)
      in pos2)"

text \<open>
  The decimal value of a byte as the specification words it: the digit for
  \<^verbatim>\<open>'0'..'9'\<close>, and 0 for any other byte. \<open>claimed_value\<close> is the specification's formula
  for two bytes, \<open>digit(byte0)*10 + digit(byte1)\<close>; \<open>position_value\<close> is what the code
  computes: the first digit is multiplied by ten only when the second byte is a digit.
\<close>

definition digit :: "byte \<Rightarrow> nat" where
  "digit c = (if is_digit c then unat c - 48 else 0)"

definition claimed_value :: "byte \<Rightarrow> byte \<Rightarrow> nat" where
  "claimed_value c0 c1 = digit c0 * 10 + digit c1"

definition position_value :: "byte \<Rightarrow> byte \<Rightarrow> nat" where
  "position_value c0 c1 = (if is_digit c1 then digit c0 * 10 + digit c1 else digit c0)"

section \<open>Basic facts\<close>

lemmas pin_defs = RS_pin_def EN_pin_def DB4_pin_def DB5_pin_def DB6_pin_def DB7_pin_def

lemma pin_index [simp]:
  "pins ! RS = 10" "pins ! EN = 9" "pins ! DB4 = 6"
  "pins ! DB5 = 13" "pins ! DB6 = 19" "pins ! DB7 = 26"
  by (simp_all add: pins_def RS_def EN_def DB4_def DB5_def DB6_def DB7_def pin_defs)

lemma mask_test:
  fixes n :: byte
  shows "(n AND 0x01 \<noteq> 0) = bit n 0" "(n AND 0x02 \<noteq> 0) = bit n 1"
        "(n AND 0x04 \<noteq> 0) = bit n 2" "(n AND 0x08 \<noteq> 0) = bit n 3"
  using and_exp_eq_0_iff_not_bit [of n 0] and_exp_eq_0_iff_not_bit [of n 1]
        and_exp_eq_0_iff_not_bit [of n 2] and_exp_eq_0_iff_not_bit [of n 3]
  by simp_all

lemma lcd_nibble_eq:
  "lcd_nibble n s =
     s\<lparr>levels := (levels s)(9 := False, 6 := bit n 0, 13 := bit n 1, 19 := bit n 2, 26 := bit n 3),
       trace := trace s @ nibble_events n\<rparr>"
  unfolding lcd_nibble_def Let_def mask_test
  by (auto simp add: gpio_set_value_def ndelay_def nibble_events_def fun_eq_iff)

lemma lcd_byte_eq:
  "lcd_byte b s =
     s\<lparr>levels := (levels s)(9 := False, 6 := bit b 0, 13 := bit b 1, 19 := bit b 2,
                             26 := bit b 3, 10 := True),
       trace := trace s @ byte_events b\<rparr>"
  unfolding lcd_byte_def Let_def lcd_nibble_eq
  by (auto simp add: gpio_set_value_def udelay_def byte_events_def fun_eq_iff)

lemma lcd_pos_eq:
  "lcd_pos p s =
     (let c = (if p - 1 > 15 then p - 1 + 48 else p - 1) OR 0x80 in
      s\<lparr>levels := (levels s)(9 := False, 6 := bit c 0, 13 := bit c 1, 19 := bit c 2,
                              26 := bit c 3, 10 := True),
        trace := trace s @ Gpio 10 False # byte_events c\<rparr>)"
  unfolding lcd_pos_def Let_def lcd_byte_eq
  by (auto simp add: gpio_set_value_def fun_eq_iff)

lemma lcd_cls_eq:
  "lcd_cls s =
     s\<lparr>levels := (levels s)(9 := False, 6 := True, 13 := False, 19 := False, 26 := False,
                             10 := True),
       trace := trace s @ Gpio 10 False # byte_events 1 @ [Mdelay 2]\<rparr>"
  unfolding lcd_cls_def Let_def lcd_byte_eq
  by (auto simp add: gpio_set_value_def mdelay_def fun_eq_iff)

lemma emitted_append: "trace (f s) = trace s @ es \<Longrightarrow> emitted f s = es"
  by (simp add: emitted_def)

text \<open>Four data lines carry the low four bits; two nibbles make the byte again.\<close>

lemma nibble_of_bits:
  fixes n :: byte
  shows "(of_bool (bit n 0) :: byte) OR push_bit 1 (of_bool (bit n 1))
         OR push_bit 2 (of_bool (bit n 2)) OR push_bit 3 (of_bool (bit n 3)) = take_bit 4 n"
proof (rule bit_eqI)
  fix k
  assume "possible_bit TYPE(byte) k"
  have "k = 0 \<or> k = 1 \<or> k = 2 \<or> k = 3 \<or> 4 \<le> k" by arith
  then show "bit ((of_bool (bit n 0) :: byte) OR push_bit 1 (of_bool (bit n 1))
         OR push_bit 2 (of_bool (bit n 2)) OR push_bit 3 (of_bool (bit n 3))) k
       = bit (take_bit 4 n) k"
    by (auto simp add: bit_simps)
qed

lemma join_nibbles:
  fixes b :: byte
  shows "push_bit 4 (take_bit 4 (drop_bit 4 b)) OR take_bit 4 b = b"
  by (rule bit_eqI) (auto simp add: bit_simps)

lemma high_nibble_small:
  fixes b :: byte
  shows "take_bit 4 (drop_bit 4 b) = drop_bit 4 b"
  by (rule bit_eqI) (auto simp add: bit_simps dest: bit_imp_le_length)

text \<open>One pulse of EN latches one nibble, whatever the levels were before.\<close>

lemma latched_pulse:
  "latched lv ([Gpio 9 True, Ndelay 150, Gpio 6 b0, Gpio 13 b1, Gpio 19 b2, Gpio 26 b3,
                Ndelay 80, Gpio 9 False, Ndelay 10] @ es) =
     (lv 10, of_bool b0 OR push_bit 1 (of_bool b1) OR push_bit 2 (of_bool b2)
             OR push_bit 3 (of_bool b3))
     # latched (lv(9 := False, 6 := b0, 13 := b1, 19 := b2, 26 := b3)) es"
proof -
  have upd: "lv(9 := True, 6 := b0, 13 := b1, 19 := b2, 26 := b3, 9 := False)
      = lv(9 := False, 6 := b0, 13 := b1, 19 := b2, 26 := b3)"
    by (auto simp add: fun_eq_iff)
  have "latched lv ([Gpio 9 True, Ndelay 150, Gpio 6 b0, Gpio 13 b1, Gpio 19 b2, Gpio 26 b3,
                Ndelay 80, Gpio 9 False, Ndelay 10] @ es) =
     (lv 10, of_bool b0 OR push_bit 1 (of_bool b1) OR push_bit 2 (of_bool b2)
             OR push_bit 3 (of_bool b3))
     # latched (lv(9 := True, 6 := b0, 13 := b1, 19 := b2, 26 := b3, 9 := False)) es"
    by (simp add: pin_defs data_nibble_def del: fun_upd_upd)
  then show ?thesis
    by (simp only: upd)
qed

lemma latched_nibble_events:
  "latched lv (nibble_events n @ es) =
     (lv 10, take_bit 4 n)
     # latched (lv(9 := False, 6 := bit n 0, 13 := bit n 1, 19 := bit n 2, 26 := bit n 3)) es"
  unfolding nibble_events_def latched_pulse nibble_of_bits ..

lemma latched_byte_events:
  "latched lv (byte_events b @ es) =
     (lv 10, drop_bit 4 b) # (lv 10, take_bit 4 b)
     # latched (lv(9 := False, 6 := bit b 0, 13 := bit b 1, 19 := bit b 2, 26 := bit b 3,
                   10 := True)) es"
proof -
  have upd: "lv(9 := False, 6 := bit (drop_bit 4 b) 0, 13 := bit (drop_bit 4 b) 1,
         19 := bit (drop_bit 4 b) 2, 26 := bit (drop_bit 4 b) 3, 9 := False, 6 := bit b 0,
         13 := bit b 1, 19 := bit b 2, 26 := bit b 3, 10 := True)
       = lv(9 := False, 6 := bit b 0, 13 := bit b 1, 19 := bit b 2, 26 := bit b 3, 10 := True)"
    by (auto simp add: fun_eq_iff)
  show ?thesis
    unfolding byte_events_def append_assoc latched_nibble_events
    by (simp add: upd high_nibble_small)
qed

lemma transfers_byte_events:
  "transfers (latched lv (byte_events b @ es)) =
     (if lv 10 then Character b else Command b)
     # transfers (latched (lv(9 := False, 6 := bit b 0, 13 := bit b 1, 19 := bit b 2,
                              26 := bit b 3, 10 := True)) es)"
  using join_nibbles [of b] by (simp add: latched_byte_events high_nibble_small)

subsection \<open>The byte sent by \<^verbatim>\<open>lcd_pos\<close>\<close>

lemma lcd_pos_as_lcd_byte:
  "lcd_pos p s = lcd_byte (pos_command p) (gpio_set_value RS_pin False s)"
  by (simp add: lcd_pos_def pos_command_def Let_def RS_pin_def)

lemma trace_lcd_pos:
  "trace (lcd_pos p s) = trace s @ Gpio 10 False # byte_events (pos_command p)"
  by (simp add: lcd_pos_eq pos_command_def Let_def)

lemma transfers_one_byte:
  "transfers (latched lv (byte_events b)) = [if lv 10 then Character b else Command b]"
  using transfers_byte_events [of lv b "[]"] by simp

lemma seen_lcd_pos:
  "seen (lcd_pos p) s = [Command (pos_command p)]"
  by (simp add: seen_def emitted_append [of "lcd_pos p" s, OF trace_lcd_pos]
      transfers_one_byte EN_pin_def)

lemma pos_command_in_range:
  assumes "1 \<le> n" "n \<le> 32" and a: "a = (if n - 1 \<ge> 16 then n - 1 + 48 else n - 1)"
  shows "pos_command (of_nat n) = of_nat (a OR 128)"
    and "unat (of_nat (a OR 128) :: byte) = a OR 128"
proof -
  define m where "m = n - 1"
  have m: "m < 32" "n = Suc m"
    using assms(1,2) by (simp_all add: m_def)
  have dec: "(of_nat n :: byte) - 1 = of_nat m"
    by (simp add: m(2))
  have "unat (of_nat m :: byte) = m"
    using m(1) by (simp add: unat_of_nat)
  then have above: "((of_nat m :: byte) > 15) = (m \<ge> 16)"
    by (auto simp add: word_less_nat_alt)
  have "pos_command (of_nat n) = of_nat (if m \<ge> 16 then m + 48 else m) OR of_nat 128"
    by (simp add: pos_command_def dec above)
  also have "\<dots> = of_nat ((if m \<ge> 16 then m + 48 else m) OR 128)"
    by (simp only: of_nat_or_eq)
  finally show "pos_command (of_nat n) = of_nat (a OR 128)"
    by (simp only: a m_def)
  have "a < 256"
    unfolding a using assms(2) by auto
  then have "take_bit 8 (a OR 128) = a OR 128"
    by (simp add: take_bit_or take_bit_nat_eq_self)
  then show "unat (of_nat (a OR 128) :: byte) = a OR 128"
    by (simp add: unsigned_of_nat)
qed

subsection \<open>The position channel\<close>

lemma is_digit_cases:
  assumes "is_digit c"
  shows "c = 0x30 \<or> c = 0x31 \<or> c = 0x32 \<or> c = 0x33 \<or> c = 0x34
       \<or> c = 0x35 \<or> c = 0x36 \<or> c = 0x37 \<or> c = 0x38 \<or> c = 0x39"
proof -
  from assms have "48 \<le> unat c" "unat c \<le> 57"
    by (simp_all add: is_digit_def word_le_nat_alt)
  then have "unat c = 48 \<or> unat c = 49 \<or> unat c = 50 \<or> unat c = 51 \<or> unat c = 52
       \<or> unat c = 53 \<or> unat c = 54 \<or> unat c = 55 \<or> unat c = 56 \<or> unat c = 57"
    by arith
  then show ?thesis
    by (simp add: word_unat_eq_iff)
qed

lemma digit_byte:
  assumes "is_digit c"
  shows "c - 0x30 = of_nat (digit c)" and "digit c \<le> 9"
  using is_digit_cases [OF assms] by (auto simp add: digit_def is_digit_def)

lemma digit_le: "digit c \<le> 9"
  using digit_byte(2) [of c] by (cases "is_digit c") (simp_all add: digit_def)

lemma two_byte_pos_value: "two_byte_pos c0 c1 = of_nat (position_value c0 c1)"
  by (simp add: two_byte_pos_def position_value_def digit_byte(1)) (simp add: digit_def)

lemma position_value_le: "position_value c0 c1 \<le> 99"
  using digit_le [of c0] digit_le [of c1] by (simp add: position_value_def)

lemma unat_two_byte_pos: "unat (two_byte_pos c0 c1) = position_value c0 c1"
  using position_value_le [of c0 c1] by (simp add: two_byte_pos_value unat_of_nat)

lemma two_byte_pos_test:
  "(two_byte_pos c0 c1 \<noteq> 0 \<and> two_byte_pos c0 c1 \<le> 32)
     = (0 < position_value c0 c1 \<and> position_value c0 c1 \<le> 32)"
proof -
  have "(two_byte_pos c0 c1 = 0) = (unat (two_byte_pos c0 c1) = 0)"
    by (simp add: unat_eq_zero)
  moreover have "(two_byte_pos c0 c1 \<le> 32) = (unat (two_byte_pos c0 c1) \<le> 32)"
    by (simp add: word_le_nat_alt)
  ultimately show ?thesis
    by (simp add: unat_two_byte_pos)
qed

lemma device_write_position:
  assumes "minor s = 2" "2 \<le> length buffer" "length buffer \<le> 30"
  shows "device_write buffer s =
     (if two_byte_pos (buffer ! 0) (buffer ! 1) \<noteq> 0 \<and> two_byte_pos (buffer ! 0) (buffer ! 1) \<le> 32
      then (lcd_pos (two_byte_pos (buffer ! 0) (buffer ! 1)) s, int (length buffer))
      else (s, int (length buffer)))"
proof -
  have c: "\<not> length buffer > 30" "length buffer \<noteq> 0" "length buffer \<noteq> 1" "(2::int) \<noteq> 1"
    using assms by auto
  show ?thesis
    unfolding device_write_def two_byte_pos_def Let_def
    by (simp only: c assms(1) if_False if_True simp_thms)
qed

lemma if_pair: "(if c then (a, n) else (b, n)) = (if c then a else b, n)"
  by simp

lemma device_write_position_value:
  assumes "minor s = 2" "2 \<le> length b" "length b \<le> 30"
  shows "device_write b s =
       (if 0 < position_value (b ! 0) (b ! 1) \<and> position_value (b ! 0) (b ! 1) \<le> 32
        then lcd_pos (of_nat (position_value (b ! 0) (b ! 1))) s else s, int (length b))"
  by (rule device_write_position [OF assms, unfolded two_byte_pos_test,
        unfolded two_byte_pos_value if_pair])

subsection \<open>The loop of \<^verbatim>\<open>lcd_print\<close>\<close>

lemma lcd_print_from_eq:
  "lcd_print_from x buffer s =
     (let sent = take (16 - x) (takeWhile (\<lambda>b. b \<noteq> 0) (drop x buffer));
          t = foldl (\<lambda>t b. lcd_byte b t) s sent
      in if length buffer \<le> x + length sent \<and> x + length sent < 16
         then t\<lparr>fault := True\<rparr> else t)"
proof (induction x buffer s rule: lcd_print_from.induct)
  case (1 x buffer s)
  show ?case
  proof (cases "x < 16 \<and> x < length buffer \<and> buffer ! x \<noteq> 0")
    case True
    then have c: "x < 16" "x < length buffer" "buffer ! x \<noteq> 0"
      by simp_all
    have k: "16 - x = Suc (16 - Suc x)"
      using c(1) by arith
    have "takeWhile (\<lambda>b. b \<noteq> 0) (drop x buffer)
        = buffer ! x # takeWhile (\<lambda>b. b \<noteq> 0) (drop (Suc x) buffer)"
      using c(2,3) by (simp flip: Cons_nth_drop_Suc)
    then have sent: "take (16 - x) (takeWhile (\<lambda>b. b \<noteq> 0) (drop x buffer))
        = buffer ! x # take (16 - Suc x) (takeWhile (\<lambda>b. b \<noteq> 0) (drop (Suc x) buffer))"
      by (simp only: k take_Suc_Cons)
    have "lcd_print_from x buffer s = lcd_print_from (Suc x) buffer (lcd_byte (buffer ! x) s)"
      using c by (subst lcd_print_from.simps) simp
    then show ?thesis
      unfolding "1.IH" [OF c] sent by (simp add: Let_def)
  next
    case False
    then consider "\<not> x < 16" | "x < 16" "\<not> x < length buffer"
      | "x < 16" "x < length buffer" "buffer ! x = 0"
      by blast
    then show ?thesis
    proof cases
      case 1
      then show ?thesis by (subst lcd_print_from.simps) simp
    next
      case 2
      then show ?thesis by (subst lcd_print_from.simps) simp
    next
      case 3
      then have "drop x buffer = 0 # drop (Suc x) buffer"
        using Cons_nth_drop_Suc [of x buffer] by simp
      with 3 show ?thesis by (subst lcd_print_from.simps) simp
    qed
  qed
qed

lemma lcd_print_eq:
  "lcd_print buffer s =
     (let sent = take 16 (takeWhile (\<lambda>b. b \<noteq> 0) buffer);
          t = foldl (\<lambda>t b. lcd_byte b t) s sent
      in if length buffer \<le> length sent \<and> length sent < 16
         then t\<lparr>fault := True\<rparr> else t)"
  using lcd_print_from_eq [of 0 buffer s] by (simp add: lcd_print_def)

lemma trace_send:
  "trace (foldl (\<lambda>t b. lcd_byte b t) s bs) = trace s @ concat (map byte_events bs)"
  by (induction bs arbitrary: s) (simp_all add: lcd_byte_eq)

lemma rest_send:
  "fault (foldl (\<lambda>t b. lcd_byte b t) s bs) = fault s"
  "message (foldl (\<lambda>t b. lcd_byte b t) s bs) = message s"
  "stores (foldl (\<lambda>t b. lcd_byte b t) s bs) = stores s"
  "minor (foldl (\<lambda>t b. lcd_byte b t) s bs) = minor s"
  "klog (foldl (\<lambda>t b. lcd_byte b t) s bs) = klog s"
  "Device_Open (foldl (\<lambda>t b. lcd_byte b t) s bs) = Device_Open s"
  by (induction bs arbitrary: s) (simp_all add: lcd_byte_eq)

lemma levels_send:
  "levels s 10 \<Longrightarrow> levels (foldl (\<lambda>t b. lcd_byte b t) s bs) 10"
  by (induction bs arbitrary: s) (simp_all add: lcd_byte_eq)

lemma levels_send_nonempty:
  assumes "bs \<noteq> []"
  shows "levels (foldl (\<lambda>t b. lcd_byte b t) s bs) 10"
proof (cases bs)
  case Nil
  with assms show ?thesis by simp
next
  case (Cons b cs)
  have "levels (lcd_byte b s) 10"
    by (simp add: lcd_byte_eq)
  then show ?thesis
    unfolding Cons foldl_Cons by (rule levels_send)
qed

lemma transfers_characters:
  "lv 10 \<Longrightarrow> transfers (latched lv (concat (map byte_events bs))) = map Character bs"
  by (induction bs arbitrary: lv) (simp_all add: transfers_byte_events)

lemma trace_lcd_print:
  "trace (lcd_print buffer s)
     = trace s @ concat (map byte_events (take 16 (takeWhile (\<lambda>b. b \<noteq> 0) buffer)))"
  by (simp add: lcd_print_eq Let_def trace_send)

lemma levels_lcd_print:
  "levels s 10 \<Longrightarrow> levels (lcd_print buffer s) 10"
  by (simp add: lcd_print_eq Let_def levels_send)

subsection \<open>The message buffer\<close>

lemma store_message_in:
  "i < length (message s) \<Longrightarrow>
     store_message i v s = s\<lparr>message := (message s)[i := v], stores := stores s @ [i]\<rparr>"
  by (simp add: store_message_def)

lemma levels_store_message [simp]:
  "levels (store_message i v s) = levels s" "trace (store_message i v s) = trace s"
  by (simp_all add: store_message_def)

lemma levels_memcpy_message [simp]:
  "levels (memcpy_message i bs s) = levels s" "trace (memcpy_message i bs s) = trace s"
  by (induction bs arbitrary: i s) simp_all

lemma memcpy_message_eq:
  "i + length bs \<le> length (message s) \<Longrightarrow>
     memcpy_message i bs s =
       s\<lparr>message := take i (message s) @ bs @ drop (i + length bs) (message s),
         stores := stores s @ [i..<i + length bs]\<rparr>"
proof (induction bs arbitrary: i s)
  case Nil
  then show ?case by simp
next
  case (Cons b bs)
  define m where "m = message s"
  have i: "i < length m" and l: "Suc i + length bs \<le> length (m[i := b])"
    using Cons.prems by (simp_all add: m_def)
  have st: "store_message i b s = s\<lparr>message := m[i := b], stores := stores s @ [i]\<rparr>"
    using i by (simp add: store_message_in m_def)
  have t: "take (Suc i) (m[i := b]) = take i m @ [b]"
    using i by (simp add: take_Suc_conv_app_nth)
  have d: "drop (Suc i + length bs) (m[i := b]) = drop (i + length (b # bs)) m"
    by simp
  have u: "[i] @ [Suc i..<Suc i + length bs] = [i..<i + length (b # bs)]"
    using upt_conv_Cons [of i "i + length (b # bs)"] by simp
  have "memcpy_message i (b # bs) s
      = memcpy_message (Suc i) bs (s\<lparr>message := m[i := b], stores := stores s @ [i]\<rparr>)"
    by (simp add: st)
  also have "\<dots> = s\<lparr>message := take (Suc i) (m[i := b]) @ bs @ drop (Suc i + length bs) (m[i := b]),
         stores := stores s @ [i] @ [Suc i..<Suc i + length bs]\<rparr>"
    using l by (subst Cons.IH) simp_all
  finally show ?case
    unfolding t d u by (simp add: m_def)
qed

lemma device_write_plain:
  assumes "minor s = 0" "length buffer \<le> 30"
  shows "device_write buffer s =
     (lcd_print (message (store_message (length buffer) 0 (memcpy_message 0 buffer s)))
        (store_message (length buffer) 0 (memcpy_message 0 buffer s)), int (length buffer))"
proof -
  have c: "\<not> length buffer > 30" "(0::int) \<noteq> 1" "(0::int) \<noteq> 2"
    using assms by auto
  show ?thesis
    unfolding device_write_def Let_def
    by (simp only: c assms(1) if_False if_True simp_thms)
qed

lemma message_lcd_print [simp]:
  "message (lcd_print buffer s) = message s" "stores (lcd_print buffer s) = stores s"
  by (simp_all add: lcd_print_eq Let_def rest_send)

lemma fault_lcd_print:
  "16 \<le> length buffer \<Longrightarrow> fault (lcd_print buffer s) = fault s"
  by (auto simp add: lcd_print_eq Let_def rest_send)

subsection \<open>The RS line\<close>

lemma levels_lcd_pos: "levels (lcd_pos p s) 10"
  by (simp add: lcd_pos_eq Let_def)

lemma levels_lcd_cls: "levels (lcd_cls s) 10"
  by (simp add: lcd_cls_eq)

lemma seen_lcd_cls: "seen lcd_cls s = [Command 0x01]"
proof -
  have t: "trace (lcd_cls s) = trace s @ Gpio 10 False # byte_events 1 @ [Mdelay 2]"
    by (simp add: lcd_cls_eq)
  have "transfers (latched (levels s) (Gpio 10 False # byte_events 1 @ [Mdelay 2])) = [Command 1]"
    by (simp add: transfers_byte_events EN_pin_def)
  then show ?thesis
    by (simp add: seen_def emitted_append [of lcd_cls s, OF t])
qed

lemma levels_device_write:
  assumes "levels s 10"
  shows "levels (fst (device_write buffer s)) 10"
  using assms
  by (simp add: device_write_def Let_def printk_too_long_def levels_lcd_cls levels_lcd_pos
      levels_lcd_print)

lemma levels_do_call:
  assumes "levels s 10"
  shows "levels (do_call s c) 10"
  using assms
  by (cases c) (simp_all add: device_open_def device_release_def device_read_def levels_device_write)

lemma levels_run:
  "levels s 10 \<Longrightarrow> levels (run cs s) 10"
  unfolding run_def by (induction cs arbitrary: s) (simp_all add: levels_do_call)

lemma levels_inicializa:
  "levels (fst (inicializa 0 reg line1 line2 s0)) 10"
  by (simp add: inicializa_def Let_def levels_lcd_print levels_lcd_pos)

section \<open>The claims\<close>

text \<open>
  C8. For every value, \<^verbatim>\<open>lcd_nibble\<close> performs, in this order: EN high, the four data lines
  DB4..DB7 from the four low bits of the value, DB4 taking the least significant one,
  EN low. For every byte, \<^verbatim>\<open>lcd_byte\<close> is two calls of \<^verbatim>\<open>lcd_nibble\<close>, the first with the
  high nibble (bits 4..7) and the second with the low one (bits 0..3), so that the
  controller latches the high nibble and then the low nibble.
\<close>

theorem lcd_nibble_then_lcd_byte_order:
  "trace (lcd_nibble v s) = trace s @
     [Gpio EN_pin True, Ndelay 150,
      Gpio DB4_pin (bit v 0), Gpio DB5_pin (bit v 1), Gpio DB6_pin (bit v 2), Gpio DB7_pin (bit v 3),
      Ndelay 80, Gpio EN_pin False, Ndelay 10]
   \<and> lcd_byte b s = gpio_set_value RS_pin True (udelay 40 (lcd_nibble b (lcd_nibble (drop_bit 4 b) s)))
   \<and> trace (lcd_byte b s) = trace s @
     [Gpio EN_pin True, Ndelay 150,
      Gpio DB4_pin (bit b 4), Gpio DB5_pin (bit b 5), Gpio DB6_pin (bit b 6), Gpio DB7_pin (bit b 7),
      Ndelay 80, Gpio EN_pin False, Ndelay 10,
      Gpio EN_pin True, Ndelay 150,
      Gpio DB4_pin (bit b 0), Gpio DB5_pin (bit b 1), Gpio DB6_pin (bit b 2), Gpio DB7_pin (bit b 3),
      Ndelay 80, Gpio EN_pin False, Ndelay 10,
      Udelay 40, Gpio RS_pin True]
   \<and> latched (levels s) (emitted (lcd_nibble v) s) = [(levels s RS_pin, take_bit 4 v)]
   \<and> latched (levels s) (emitted (lcd_byte b) s)
       = [(levels s RS_pin, drop_bit 4 b), (levels s RS_pin, take_bit 4 b)]"
proof -
  have n: "trace (lcd_nibble v s) = trace s @ nibble_events v"
    by (simp add: lcd_nibble_eq)
  have b: "trace (lcd_byte b s) = trace s @ byte_events b"
    by (simp add: lcd_byte_eq)
  have 1: "trace (lcd_nibble v s) = trace s @
     [Gpio EN_pin True, Ndelay 150,
      Gpio DB4_pin (bit v 0), Gpio DB5_pin (bit v 1), Gpio DB6_pin (bit v 2), Gpio DB7_pin (bit v 3),
      Ndelay 80, Gpio EN_pin False, Ndelay 10]"
    by (simp add: n nibble_events_def pin_defs)
  have 2: "lcd_byte b s
      = gpio_set_value RS_pin True (udelay 40 (lcd_nibble b (lcd_nibble (drop_bit 4 b) s)))"
    by (simp add: lcd_byte_def RS_pin_def)
  have 3: "trace (lcd_byte b s) = trace s @
     [Gpio EN_pin True, Ndelay 150,
      Gpio DB4_pin (bit b 4), Gpio DB5_pin (bit b 5), Gpio DB6_pin (bit b 6), Gpio DB7_pin (bit b 7),
      Ndelay 80, Gpio EN_pin False, Ndelay 10,
      Gpio EN_pin True, Ndelay 150,
      Gpio DB4_pin (bit b 0), Gpio DB5_pin (bit b 1), Gpio DB6_pin (bit b 2), Gpio DB7_pin (bit b 3),
      Ndelay 80, Gpio EN_pin False, Ndelay 10,
      Udelay 40, Gpio RS_pin True]"
    by (simp add: b byte_events_def nibble_events_def pin_defs bit_simps)
  have 4: "latched (levels s) (emitted (lcd_nibble v) s) = [(levels s RS_pin, take_bit 4 v)]"
    using latched_nibble_events [of "levels s" v "[]"]
    by (simp add: emitted_append [of "lcd_nibble v" s, OF n] RS_pin_def)
  have 5: "latched (levels s) (emitted (lcd_byte b) s)
       = [(levels s RS_pin, drop_bit 4 b), (levels s RS_pin, take_bit 4 b)]"
    using latched_byte_events [of "levels s" b "[]"]
    by (simp add: emitted_append [of "lcd_byte b" s, OF b] RS_pin_def)
  from 1 2 3 4 5 show ?thesis by blast
qed

text \<open>
  C10. \<^verbatim>\<open>lcd_nibble\<close> changes the EN line and the lines DB4..DB7 and nothing else: the level
  of RS, and of every line other than those five, is what it was; every GPIO write it
  makes is to one of the five; it returns with EN low, its last GPIO write being EN low;
  and no other part of the driver state changes.
\<close>

theorem lcd_nibble_frame:
  "levels (lcd_nibble v s) RS_pin = levels s RS_pin
   \<and> \<not> levels (lcd_nibble v s) EN_pin
   \<and> (\<forall>g. g \<notin> {EN_pin, DB4_pin, DB5_pin, DB6_pin, DB7_pin}
          \<longrightarrow> levels (lcd_nibble v s) g = levels s g)
   \<and> (\<forall>g x. Gpio g x \<in> set (emitted (lcd_nibble v) s)
          \<longrightarrow> g \<in> {EN_pin, DB4_pin, DB5_pin, DB6_pin, DB7_pin})
   \<and> trace (lcd_nibble v s) = trace s @ emitted (lcd_nibble v) s
   \<and> last (butlast (emitted (lcd_nibble v) s)) = Gpio EN_pin False
   \<and> last (emitted (lcd_nibble v) s) = Ndelay 10
   \<and> lcd_nibble v s = s\<lparr>levels := levels (lcd_nibble v s), trace := trace (lcd_nibble v s)\<rparr>"
proof -
  have n: "trace (lcd_nibble v s) = trace s @ nibble_events v"
    by (simp add: lcd_nibble_eq)
  show ?thesis
    unfolding emitted_append [of "lcd_nibble v" s, OF n]
    by (simp add: lcd_nibble_eq nibble_events_def pin_defs)
qed

theorem lcd_nibble_frame_witness:
  "RS_pin \<notin> {EN_pin, DB4_pin, DB5_pin, DB6_pin, DB7_pin}
   \<and> levels (lcd_nibble 5 boot) RS_pin = levels boot RS_pin
   \<and> Gpio DB6_pin True \<in> set (emitted (lcd_nibble 5) boot)
   \<and> DB6_pin \<in> {EN_pin, DB4_pin, DB5_pin, DB6_pin, DB7_pin}"
  using lcd_nibble_frame [of 5 boot]
  by (simp add: pin_defs emitted_def lcd_nibble_eq nibble_events_def boot_def)

text \<open>
  C1. For every position \<open>n\<close> with \<open>1 \<le> n \<le> 32\<close>, \<^verbatim>\<open>lcd_pos\<close> makes exactly one call of
  \<^verbatim>\<open>lcd_byte\<close>, right after setting RS low, with the byte \<open>a OR 0x80\<close>, where \<open>a\<close> is
  \<open>n - 1 + 48\<close> if \<open>n - 1 \<ge> 16\<close> and \<open>n - 1\<close> otherwise (computed on natural numbers: nothing
  wraps); the controller sees exactly one command byte, that one.
\<close>

theorem lcd_pos_valid_position:
  assumes "1 \<le> n" "n \<le> 32"
  shows "let a = (if n - 1 \<ge> 16 then n - 1 + 48 else n - 1);
             c = (of_nat (a OR 128) :: byte)
         in unat c = a OR 128
          \<and> lcd_pos (of_nat n) s = lcd_byte c (gpio_set_value RS_pin False s)
          \<and> trace (lcd_pos (of_nat n) s) = trace s @ emitted (lcd_pos (of_nat n)) s
          \<and> emitted (lcd_pos (of_nat n)) s
              = Gpio RS_pin False # emitted (lcd_byte c) (gpio_set_value RS_pin False s)
          \<and> seen (lcd_pos (of_nat n)) s = [Command c]"
proof -
  define a where "a = (if n - 1 \<ge> 16 then n - 1 + 48 else n - 1)"
  define c :: byte where "c = of_nat (a OR 128)"
  define p :: byte where "p = of_nat n"
  have pc: "pos_command p = c" and 1: "unat c = a OR 128"
    unfolding p_def c_def by (rule pos_command_in_range [OF assms a_def])+
  have 2: "lcd_pos p s = lcd_byte c (gpio_set_value RS_pin False s)"
    using lcd_pos_as_lcd_byte [of p s] by (simp add: pc)
  have e: "emitted (lcd_pos p) s = Gpio 10 False # byte_events c"
    using emitted_append [of "lcd_pos p" s, OF trace_lcd_pos] by (simp add: pc)
  have 3: "trace (lcd_pos p s) = trace s @ emitted (lcd_pos p) s"
    by (simp add: e trace_lcd_pos pc)
  have "trace (lcd_byte c t) = trace t @ byte_events c" for t
    by (simp add: lcd_byte_eq)
  then have "emitted (lcd_byte c) t = byte_events c" for t
    by (rule emitted_append)
  then have 4: "emitted (lcd_pos p) s
      = Gpio RS_pin False # emitted (lcd_byte c) (gpio_set_value RS_pin False s)"
    by (simp add: e RS_pin_def)
  have 5: "seen (lcd_pos p) s = [Command c]"
    by (simp add: seen_lcd_pos pc)
  from 1 2 3 4 5 show ?thesis
    unfolding Let_def a_def [symmetric] c_def [symmetric] p_def [symmetric] by blast
qed

theorem lcd_pos_valid_position_witness:
  "(1::nat) \<le> 20 \<and> (20::nat) \<le> 32
   \<and> lcd_pos 20 boot = lcd_byte 0xC3 (gpio_set_value RS_pin False boot)
   \<and> seen (lcd_pos 20) boot = [Command 0xC3]"
  using lcd_pos_valid_position [of 20 boot]
  by (simp add: Let_def)

text \<open>
  C4, as the code has it. The command bytes of \<^verbatim>\<open>lcd_pos\<close> at the four boundary
  positions are 0x80 for 1, 0x8F for 16, 0xC0 for 17 and 0xCF for 32 (address 79 = 0x4F
  with bit 7 set).
\<close>

theorem lcd_pos_boundary_bytes:
  "lcd_pos 1 s = lcd_byte 0x80 (gpio_set_value RS_pin False s) \<and> seen (lcd_pos 1) s = [Command 0x80]
 \<and> lcd_pos 16 s = lcd_byte 0x8F (gpio_set_value RS_pin False s) \<and> seen (lcd_pos 16) s = [Command 0x8F]
 \<and> lcd_pos 17 s = lcd_byte 0xC0 (gpio_set_value RS_pin False s) \<and> seen (lcd_pos 17) s = [Command 0xC0]
 \<and> lcd_pos 32 s = lcd_byte 0xCF (gpio_set_value RS_pin False s) \<and> seen (lcd_pos 32) s = [Command 0xCF]"
  by (simp add: seen_lcd_pos lcd_pos_as_lcd_byte pos_command_def)

text \<open>
  C4 as stated gives 0xEF for position 32. The byte is 0xCF: \<open>79 OR 0x80 = 0xCF\<close>.
\<close>

theorem lcd_pos_32_counterexample:
  "seen (lcd_pos 32) boot \<noteq> [Command 0xEF] \<and> seen (lcd_pos 32) boot = [Command 0xCF]
   \<and> lcd_pos 32 boot = lcd_byte 0xCF (gpio_set_value RS_pin False boot)
   \<and> (79 :: byte) OR 0x80 = 0xCF \<and> (79 :: nat) OR 0x80 = 0xCF"
  by (simp add: seen_lcd_pos lcd_pos_as_lcd_byte pos_command_def)

text \<open>
  C2. The claim is that a position outside 1..32 leads to no command byte and no
  transfer at all. The code at the input that breaks it: the single byte \<open>'0'\<close> written
  on minor 2. The one-byte branch of \<^verbatim>\<open>device_write\<close> calls \<^verbatim>\<open>lcd_pos(0)\<close>, which has no
  test of its own, and the controller receives the command byte 0xAF (set address
  0x2F). The branch for two or more bytes has the test \<^verbatim>\<open>(pos != 0) && (pos <= 32)\<close>
  that the one-byte branch misses: the inputs \<open>'0' '0'\<close> and \<open>'0'\<close>, newline leave the state
  as it is.
\<close>

theorem device_write_single_zero:
  "device_write [0x30] (boot\<lparr>minor := 2\<rparr>) = (lcd_pos 0 (boot\<lparr>minor := 2\<rparr>), 1)
   \<and> seen (\<lambda>s. fst (device_write [0x30] s)) (boot\<lparr>minor := 2\<rparr>) = [Command 0xAF]
   \<and> trace (fst (device_write [0x30] (boot\<lparr>minor := 2\<rparr>))) \<noteq> trace (boot\<lparr>minor := 2\<rparr>)
   \<and> device_write [0x30, 0x30] (boot\<lparr>minor := 2\<rparr>) = (boot\<lparr>minor := 2\<rparr>, 2)
   \<and> device_write [0x30, 0x0A] (boot\<lparr>minor := 2\<rparr>) = (boot\<lparr>minor := 2\<rparr>, 2)"
proof -
  have 1: "device_write [0x30] s = (lcd_pos 0 s, 1)" if "minor s = 2" for s
    using that by (simp add: device_write_def is_digit_def)
  have 2: "seen (\<lambda>s. fst (device_write [0x30] s)) (boot\<lparr>minor := 2\<rparr>) = [Command 0xAF]"
    using seen_lcd_pos [of 0 "boot\<lparr>minor := 2\<rparr>"]
    by (simp add: seen_def emitted_def 1 pos_command_def)
  have 3: "trace (fst (device_write [0x30] (boot\<lparr>minor := 2\<rparr>))) \<noteq> trace (boot\<lparr>minor := 2\<rparr>)"
    by (simp add: 1 trace_lcd_pos)
  have 4: "device_write [0x30, 0x30] s = (s, 2)" "device_write [0x30, 0x0A] s = (s, 2)"
    if "minor s = 2" for s
    using that by (simp_all add: device_write_def is_digit_def)
  from 1 [of "boot\<lparr>minor := 2\<rparr>"] 2 3 4 [of "boot\<lparr>minor := 2\<rparr>"] show ?thesis
    by simp
qed

text \<open>
  C3, as the code has it. On minor 2, for a write of 2 to 30 bytes, \<^verbatim>\<open>device_write\<close>
  uses the first two bytes only. The value is \<open>digit(byte0)*10 + digit(byte1)\<close> when the
  second byte is an ASCII digit and \<open>digit(byte0)\<close> when it is not, \<open>digit\<close> of a byte
  that is not an ASCII digit being 0. \<^verbatim>\<open>lcd_pos\<close> is called with the value if and only
  if \<open>0 < value \<le> 32\<close>; otherwise the state is unchanged. The count returned is the
  length of the input.
\<close>

theorem device_write_position_two_bytes:
  assumes "minor s = 2" "2 \<le> length buffer" "length buffer \<le> 30"
  shows "let v = position_value (buffer ! 0) (buffer ! 1) in
           device_write buffer s
             = (if 0 < v \<and> v \<le> 32 then lcd_pos (of_nat v) s else s, int (length buffer))
         \<and> fst (device_write buffer s) = fst (device_write (take 2 buffer) s)"
proof -
  define v where "v = position_value (buffer ! 0) (buffer ! 1)"
  have 1: "device_write buffer s
      = (if 0 < v \<and> v \<le> 32 then lcd_pos (of_nat v) s else s, int (length buffer))"
    unfolding v_def by (rule device_write_position_value [OF assms])
  have t: "(take 2 buffer) ! 0 = buffer ! 0" "(take 2 buffer) ! 1 = buffer ! 1"
    "2 \<le> length (take 2 buffer)" "length (take 2 buffer) \<le> 30"
    using assms(2) by simp_all
  have 2: "fst (device_write buffer s) = fst (device_write (take 2 buffer) s)"
    using device_write_position_value [OF assms(1) t(3,4)] 1
    by (simp add: t(1,2) v_def)
  from 1 2 show ?thesis
    unfolding Let_def v_def [symmetric] by blast
qed

theorem device_write_position_two_bytes_witness:
  "minor (boot\<lparr>minor := 2\<rparr>) = 2 \<and> 2 \<le> length [0x31 :: byte, 0x37, 0x0A]
   \<and> length [0x31 :: byte, 0x37, 0x0A] \<le> 30
   \<and> position_value 0x31 0x37 = 17
   \<and> device_write [0x31, 0x37, 0x0A] (boot\<lparr>minor := 2\<rparr>) = (lcd_pos 17 (boot\<lparr>minor := 2\<rparr>), 3)"
proof -
  have v: "position_value 0x31 0x37 = 17"
    by (simp add: position_value_def digit_def is_digit_def)
  show ?thesis
    using device_write_position_two_bytes [of "boot\<lparr>minor := 2\<rparr>" "[0x31, 0x37, 0x0A]"]
    by (simp add: v)
qed

text \<open>
  C3 as stated fails on the two bytes \<open>'5'\<close>, newline: its formula gives 50, so no
  call, while the code calls \<^verbatim>\<open>lcd_pos(5)\<close>. It also fails on 31 bytes that start with
  \<open>'0'\<close>, \<open>'5'\<close>: the formula gives 5, and the code drops the write.
\<close>

theorem device_write_position_counterexample:
  "claimed_value 0x35 0x0A = 50 \<and> \<not> (0 < (50::nat) \<and> (50::nat) \<le> 32)
   \<and> device_write [0x35, 0x0A] (boot\<lparr>minor := 2\<rparr>) = (lcd_pos 5 (boot\<lparr>minor := 2\<rparr>), 2)
   \<and> seen (\<lambda>s. fst (device_write [0x35, 0x0A] s)) (boot\<lparr>minor := 2\<rparr>) = [Command 0x84]
   \<and> claimed_value 0x30 0x35 = 5
   \<and> device_write (0x30 # 0x35 # replicate 29 0x0A) (boot\<lparr>minor := 2\<rparr>)
        = (printk_too_long 31 (boot\<lparr>minor := 2\<rparr>), 31)
   \<and> seen (\<lambda>s. fst (device_write (0x30 # 0x35 # replicate 29 0x0A) s)) (boot\<lparr>minor := 2\<rparr>) = []"
proof -
  have 1: "claimed_value 0x35 0x0A = 50" "claimed_value 0x30 0x35 = 5"
    by (simp_all add: claimed_value_def digit_def is_digit_def)
  have 2: "device_write [0x35, 0x0A] s = (lcd_pos 5 s, 2)" if "minor s = 2" for s
    using that by (simp add: device_write_def is_digit_def)
  have 3: "device_write (0x30 # 0x35 # replicate 29 0x0A) s = (printk_too_long 31 s, 31)" for s
    by (simp add: device_write_def)
  have 4: "seen (\<lambda>s. fst (device_write [0x35, 0x0A] s)) (boot\<lparr>minor := 2\<rparr>) = [Command 0x84]"
    using seen_lcd_pos [of 5 "boot\<lparr>minor := 2\<rparr>"]
    by (simp add: seen_def emitted_def 2 pos_command_def)
  have 5: "seen (\<lambda>s. fst (device_write (0x30 # 0x35 # replicate 29 0x0A) s)) (boot\<lparr>minor := 2\<rparr>) = []"
    by (simp add: seen_def emitted_def 3 printk_too_long_def)
  from 1 2 [of "boot\<lparr>minor := 2\<rparr>"] 3 4 5 show ?thesis by simp
qed

text \<open>
  C7. A write of more than 30 bytes, whatever the minor number, changes nothing but
  the kernel log: no GPIO write, no delay, no store into \<^verbatim>\<open>message\<close>, nothing for the
  controller to see; and it returns the length of the input.
\<close>

theorem device_write_too_long:
  assumes "length buffer > 30"
  shows "device_write buffer s = (s\<lparr>klog := klog s @ [length buffer]\<rparr>, int (length buffer))
       \<and> trace (fst (device_write buffer s)) = trace s
       \<and> levels (fst (device_write buffer s)) = levels s
       \<and> message (fst (device_write buffer s)) = message s
       \<and> stores (fst (device_write buffer s)) = stores s
       \<and> emitted (\<lambda>s. fst (device_write buffer s)) s = []
       \<and> seen (\<lambda>s. fst (device_write buffer s)) s = []"
  using assms by (simp add: device_write_def Let_def printk_too_long_def emitted_def seen_def)

theorem device_write_too_long_witness:
  "length (replicate 31 (0x41 :: byte)) > 30
   \<and> device_write (replicate 31 0x41) boot = (boot\<lparr>klog := [31]\<rparr>, 31)
   \<and> seen (\<lambda>s. fst (device_write (replicate 31 0x41) s)) boot = []"
  using device_write_too_long [of "replicate 31 0x41" boot]
  by (simp add: boot_def)

text \<open>
  C5. For every byte sequence, \<^verbatim>\<open>lcd_print\<close> calls \<^verbatim>\<open>lcd_byte\<close> on exactly the bytes before
  the first zero byte, in their order, and on at most 16 of them: its result is the
  result of those calls, one after the other (with \<open>fault\<close> set when the loop reads
  past the end of a sequence shorter than 16 that holds no zero byte). When RS is high
  on entry, the controller sees these bytes as characters and nothing else. A 20-byte
  input with no zero byte gives its first 16 bytes, so 16 transfers; the string HELLO
  with its terminator gives the 5 bytes of HELLO.
\<close>

theorem lcd_print_sends_prefix:
  "let sent = take 16 (takeWhile (\<lambda>b. b \<noteq> 0) buffer);
       t = foldl (\<lambda>t b. lcd_byte b t) s sent
   in lcd_print buffer s
        = (if length buffer \<le> length sent \<and> length sent < 16 then t\<lparr>fault := True\<rparr> else t)
    \<and> length sent \<le> 16
    \<and> trace (lcd_print buffer s) = trace s @ emitted (lcd_print buffer) s
    \<and> (levels s RS_pin \<longrightarrow> seen (lcd_print buffer) s = map Character sent)
    \<and> (length buffer = 20 \<and> 0 \<notin> set buffer \<longrightarrow> sent = take 16 buffer \<and> length sent = 16)
    \<and> (buffer = [0x48, 0x45, 0x4C, 0x4C, 0x4F, 0]
          \<longrightarrow> sent = [0x48, 0x45, 0x4C, 0x4C, 0x4F] \<and> lcd_print buffer s = t)"
proof -
  define sent where "sent = take 16 (takeWhile (\<lambda>b. b \<noteq> 0) buffer)"
  define t where "t = foldl (\<lambda>t b. lcd_byte b t) s sent"
  have 1: "lcd_print buffer s
        = (if length buffer \<le> length sent \<and> length sent < 16 then t\<lparr>fault := True\<rparr> else t)"
    by (simp add: lcd_print_eq [of buffer s] sent_def t_def Let_def)
  have 2: "length sent \<le> 16"
    by (simp add: sent_def)
  have tr: "trace (lcd_print buffer s) = trace s @ concat (map byte_events sent)"
    by (simp add: trace_lcd_print sent_def)
  have e: "emitted (lcd_print buffer) s = concat (map byte_events sent)"
    by (rule emitted_append [of "lcd_print buffer" s, OF tr])
  have 3: "trace (lcd_print buffer s) = trace s @ emitted (lcd_print buffer) s"
    by (simp add: e tr)
  have 4: "seen (lcd_print buffer) s = map Character sent" if "levels s RS_pin"
    using that by (simp add: seen_def e transfers_characters RS_pin_def)
  have 5: "sent = take 16 buffer \<and> length sent = 16" if "length buffer = 20" "0 \<notin> set buffer"
  proof -
    from that(2) have tw: "takeWhile (\<lambda>b. b \<noteq> 0) buffer = buffer"
      by (intro takeWhile_eq_all_conv [THEN iffD2]) auto
    show ?thesis
      unfolding sent_def tw using that(1) by simp
  qed
  have 6: "sent = [0x48, 0x45, 0x4C, 0x4C, 0x4F] \<and> lcd_print buffer s = t"
    if "buffer = [0x48, 0x45, 0x4C, 0x4C, 0x4F, 0]"
  proof -
    have "sent = [0x48, 0x45, 0x4C, 0x4C, 0x4F]"
      by (simp add: sent_def that)
    then show ?thesis
      using 1 by (simp add: that)
  qed
  from 1 2 3 4 5 6 show ?thesis
    unfolding Let_def sent_def [symmetric] t_def [symmetric] by blast
qed

text \<open>
  A witness of C5: HELLO and twenty asterisks, printed after \<^verbatim>\<open>lcd_cls\<close>.
\<close>

theorem lcd_print_sends_prefix_witness:
  "levels (lcd_cls boot) RS_pin
   \<and> seen (lcd_print [0x48, 0x45, 0x4C, 0x4C, 0x4F, 0]) (lcd_cls boot)
       = [Character 0x48, Character 0x45, Character 0x4C, Character 0x4C, Character 0x4F]
   \<and> lcd_print [0x48, 0x45, 0x4C, 0x4C, 0x4F, 0] (lcd_cls boot)
       = lcd_byte 0x4F (lcd_byte 0x4C (lcd_byte 0x4C (lcd_byte 0x45 (lcd_byte 0x48 (lcd_cls boot)))))
   \<and> length (replicate 20 (0x2A :: byte)) = 20 \<and> 0 \<notin> set (replicate 20 (0x2A :: byte))
   \<and> take 16 (takeWhile (\<lambda>b. b \<noteq> 0) (replicate 20 (0x2A :: byte))) = replicate 16 0x2A
   \<and> seen (lcd_print (replicate 20 0x2A)) (lcd_cls boot) = replicate 16 (Character 0x2A)"
proof -
  have rs: "levels (lcd_cls boot) RS_pin"
    by (simp add: lcd_cls_eq RS_pin_def)
  have sent: "take 16 (takeWhile (\<lambda>b. b \<noteq> 0) (replicate 20 (0x2A :: byte))) = replicate 16 0x2A"
    by (simp add: takeWhile_replicate)
  show ?thesis
    using lcd_print_sends_prefix [of "[0x48, 0x45, 0x4C, 0x4C, 0x4F, 0]" "lcd_cls boot"]
      lcd_print_sends_prefix [of "replicate 20 0x2A" "lcd_cls boot"]
    by (simp add: rs sent Let_def)
qed

text \<open>
  C9. On minor 0, a write of \<open>len \<le> 30\<close> bytes into the 32-byte \<^verbatim>\<open>message\<close> stores the
  \<open>len\<close> bytes of the input at the indices \<open>0..len-1\<close> and a zero at the index \<open>len\<close>, and
  leaves the rest of the array as it was. The stores are at the indices \<open>0, .., len\<close>,
  in this order, each at most 30 and inside the array; no access, the reads of
  \<^verbatim>\<open>lcd_print\<close> included, falls outside it (\<open>fault\<close> keeps its value).
\<close>

theorem device_write_plain_buffer:
  assumes "minor s = 0" "length buffer \<le> 30" "length (message s) = 32"
  shows "let s' = fst (device_write buffer s); len = length buffer in
       message s' = buffer @ 0 # drop (Suc len) (message s)
     \<and> length (message s') = 32
     \<and> take len (message s') = buffer
     \<and> message s' ! len = 0
     \<and> stores s' = stores s @ [0..<len] @ [len]
     \<and> (\<forall>i \<in> set ([0..<len] @ [len]). i \<le> 30 \<and> i < length (message s))
     \<and> fault s' = fault s
     \<and> snd (device_write buffer s) = int len"
proof -
  define len where "len = length buffer"
  define m where "m = message s"
  define s1 where "s1 = memcpy_message 0 buffer s"
  define s2 where "s2 = store_message len 0 s1"
  define s' where "s' = fst (device_write buffer s)"
  have len: "len \<le> 30" "length m = 32"
    using assms(2,3) by (simp_all add: len_def m_def)
  have s1: "s1 = s\<lparr>message := buffer @ drop len m, stores := stores s @ [0..<len]\<rparr>"
    unfolding s1_def using memcpy_message_eq [of 0 buffer s] len
    by (simp add: len_def m_def)
  have dm: "drop len m = m ! len # drop (Suc len) m"
    using len by (simp add: Cons_nth_drop_Suc)
  have "len < length (message s1)"
    using len by (simp add: s1 len_def)
  then have "s2 = s1\<lparr>message := (message s1)[len := 0], stores := stores s1 @ [len]\<rparr>"
    unfolding s2_def by (rule store_message_in)
  moreover have "(buffer @ drop len m)[len := 0] = buffer @ 0 # drop (Suc len) m"
    unfolding dm by (simp add: list_update_append len_def)
  ultimately have s2: "message s2 = buffer @ 0 # drop (Suc len) m"
      "stores s2 = stores s @ [0..<len] @ [len]" "fault s2 = fault s"
    by (simp_all add: s1)
  have w: "device_write buffer s = (lcd_print (message s2) s2, int len)"
    unfolding s2_def s1_def len_def by (rule device_write_plain [OF assms(1,2)])
  then have s': "s' = lcd_print (message s2) s2"
    by (simp add: s'_def)
  have 1: "message s' = buffer @ 0 # drop (Suc len) m"
    by (simp add: s' s2)
  have 2: "length (message s') = 32"
    using len by (simp add: 1 len_def)
  have 3: "take len (message s') = buffer" and 4: "message s' ! len = 0"
    by (simp_all add: 1 len_def)
  have 5: "stores s' = stores s @ [0..<len] @ [len]"
    by (simp add: s' s2)
  have 6: "\<forall>i \<in> set ([0..<len] @ [len]). i \<le> 30 \<and> i < length m"
    using len by auto
  have "16 \<le> length (message s2)"
    using len by (simp add: s2(1) len_def)
  then have 7: "fault s' = fault s"
    by (simp add: s' fault_lcd_print s2(3))
  have 8: "snd (device_write buffer s) = int len"
    by (simp add: w)
  from 1 2 3 4 5 6 7 8 show ?thesis
    unfolding Let_def s'_def [symmetric] len_def [symmetric] m_def [symmetric] by blast
qed

text \<open>
  A witness of C9: the two bytes HI written to the freshly loaded driver.
\<close>

theorem device_write_plain_buffer_witness:
  "minor boot = 0 \<and> length [0x48 :: byte, 0x49] \<le> 30 \<and> length (message boot) = 32
   \<and> message (fst (device_write [0x48, 0x49] boot)) = [0x48, 0x49, 0] @ replicate 29 0
   \<and> stores (fst (device_write [0x48, 0x49] boot)) = [0, 1, 2]
   \<and> \<not> fault (fst (device_write [0x48, 0x49] boot))
   \<and> (2 :: nat) \<le> 30"
proof -
  have b: "minor boot = 0" "length (message boot) = 32" "stores boot = []" "\<not> fault boot"
    "message boot = replicate 32 0"
    by (simp_all add: boot_def)
  have r: "drop 3 (replicate 32 (0 :: byte)) = replicate 29 0" "[0..<2] = [0, 1]"
    by (simp, code_simp)
  show ?thesis
    using device_write_plain_buffer [of boot "[0x48, 0x49]"]
    by (simp add: b Let_def r)
qed

text \<open>
  C6. The RS line (the mode: low for a command, high for a character). Every call of
  \<^verbatim>\<open>lcd_byte\<close> ends with RS high. \<^verbatim>\<open>lcd_cls\<close> and \<^verbatim>\<open>lcd_pos\<close> set RS low and call
  \<^verbatim>\<open>lcd_byte\<close> next, so the controller takes their byte as a command whatever the
  mode was, and they return with RS high. \<^verbatim>\<open>lcd_print\<close> returns with RS high when RS
  was high on entry, and also whenever it sends at least one byte. Hence RS is high
  in every state of the loaded driver: after a successful \<^verbatim>\<open>inicializa\<close> and any
  sequence of open, release, read and write calls.
\<close>

theorem rs_mode_invariant:
  "levels (lcd_byte b s) RS_pin
   \<and> lcd_cls s = mdelay 2 (lcd_byte 0x01 (gpio_set_value RS_pin False s))
   \<and> lcd_pos p s = lcd_byte (pos_command p) (gpio_set_value RS_pin False s)
   \<and> \<not> levels (gpio_set_value RS_pin False s) RS_pin
   \<and> seen lcd_cls s = [Command 0x01]
   \<and> seen (lcd_pos p) s = [Command (pos_command p)]
   \<and> levels (lcd_cls s) RS_pin
   \<and> levels (lcd_pos p s) RS_pin
   \<and> (levels s RS_pin \<longrightarrow> levels (lcd_print buffer s) RS_pin)
   \<and> (take 16 (takeWhile (\<lambda>b. b \<noteq> 0) buffer) \<noteq> [] \<longrightarrow> levels (lcd_print buffer s) RS_pin)
   \<and> levels (run cs (fst (inicializa 0 reg line1 line2 s0))) RS_pin"
proof -
  have 1: "levels (lcd_byte b s) RS_pin"
    by (simp add: lcd_byte_eq RS_pin_def)
  have 2: "lcd_cls s = mdelay 2 (lcd_byte 0x01 (gpio_set_value RS_pin False s))"
    by (simp add: lcd_cls_def RS_pin_def)
  have 3: "\<not> levels (gpio_set_value RS_pin False s) RS_pin"
    by (simp add: gpio_set_value_def)
  have 4: "levels (lcd_cls s) RS_pin" "levels (lcd_pos p s) RS_pin"
    by (simp_all add: levels_lcd_cls levels_lcd_pos RS_pin_def)
  have 5: "levels (lcd_print buffer s) RS_pin" if "levels s RS_pin"
    using that by (simp add: levels_lcd_print RS_pin_def)
  have 6: "levels (lcd_print buffer s) RS_pin"
    if "take 16 (takeWhile (\<lambda>b. b \<noteq> 0) buffer) \<noteq> []"
    using levels_send_nonempty [OF that, of s] by (simp add: lcd_print_eq Let_def RS_pin_def)
  have 7: "levels (run cs (fst (inicializa 0 reg line1 line2 s0))) RS_pin"
    unfolding RS_pin_def by (rule levels_run [OF levels_inicializa])
  from 1 2 3 4 5 6 7 show ?thesis
    using lcd_pos_as_lcd_byte [of p s] seen_lcd_cls [of s] seen_lcd_pos [of p s] by blast
qed

text \<open>
  A witness of C6: an empty string printed after \<^verbatim>\<open>lcd_cls\<close>, and one letter printed
  from the state before the module is loaded.
\<close>

theorem rs_mode_invariant_witness:
  "levels (lcd_cls boot) RS_pin \<and> levels (lcd_print [0] (lcd_cls boot)) RS_pin
   \<and> take 16 (takeWhile (\<lambda>b. b \<noteq> 0) [0x41 :: byte, 0]) \<noteq> []
   \<and> levels (lcd_print [0x41, 0] boot) RS_pin"
proof -
  note a = rs_mode_invariant [of 0 boot 0 "[0x41, 0]" "[]" 0 "[]" "[]" boot]
  note b = rs_mode_invariant [of 0 "lcd_cls boot" 0 "[0]" "[]" 0 "[]" "[]" boot]
  have 1: "levels (lcd_cls boot) RS_pin"
    using a by blast
  have 2: "levels (lcd_print [0] (lcd_cls boot)) RS_pin"
    using b 1 by blast
  have 3: "take 16 (takeWhile (\<lambda>b. b \<noteq> 0) [0x41 :: byte, 0]) \<noteq> []"
    by simp
  have 4: "levels (lcd_print [0x41, 0] boot) RS_pin"
    using a 3 by blast
  from 1 2 3 4 show ?thesis by blast
qed

end
